theory Spec2Isabelle
  imports Main "HOL-Library.Sublist"
begin

section \<open>Strings\<close>

text \<open>
  A Python \<open>str\<close> is modelled as a \<open>string\<close> (a list of \<open>char\<close>), one \<open>char\<close> per
  character. The embedding is exact for ASCII text: \<open>lower\<close> maps \<open>A\<close>..\<open>Z\<close> (codes 65..90)
  to \<open>a\<close>..\<open>z\<close> by adding 32 and leaves every other character alone, which is what
  \<open>str.lower()\<close> does on ASCII. Characters outside ASCII are treated as caseless.
\<close>

definition lower_char :: "char \<Rightarrow> char" where
  "lower_char c =
     (let n = (of_char c :: nat) in if 65 \<le> n \<and> n \<le> 90 then char_of (n + 32) else c)"

definition lower :: "string \<Rightarrow> string" where
  "lower s = map lower_char s"

text \<open>Python's \<open>keyword in text\<close> on strings: \<open>keyword\<close> occurs as a contiguous substring.\<close>

fun str_in :: "string \<Rightarrow> string \<Rightarrow> bool" where
  "str_in k [] = (k = [])"
| "str_in k (c # cs) = (prefix k (c # cs) \<or> str_in k cs)"

section \<open>Configuration\<close>

definition API_URL :: string where
  "API_URL = ''https://openrouter.ai/api/v1/chat/completions''"

definition MODEL :: string where
  "MODEL = ''openai/gpt-4o''"

definition SYSTEM_PROMPT :: string where
  "SYSTEM_PROMPT =
     ''You are a helpful, harmless, and honest AI assistant. '' @ [CHR 0x0A] @
     ''You provide accurate information and refuse to help with harmful, illegal, or unethical requests.'' @ [CHR 0x0A] @
     ''You should be polite, professional, and respectful in all interactions.''"

definition BANNED_KEYWORDS :: "string list" where
  "BANNED_KEYWORDS =
     [''kill'', ''murder'', ''hack'', ''bomb'', ''exploit'', ''steal'',
      ''drug'', ''weapon'', ''terror'', ''abuse'', ''scam'', ''fraud'',
      ''suicide'', ''self-harm'', ''violence'', ''illegal'']"

definition SENSITIVE_PATTERNS :: "string list" where
  "SENSITIVE_PATTERNS =
     [''how to make'', ''how do i'', ''teach me to'', ''help me'',
      ''instructions for'', ''guide to'', ''steps to'']"

section \<open>ModerationSystem\<close>

record ModerationSystem =
  banned_keywords :: "string list"

text \<open>\<open>__init__\<close>: the keywords are stored lowercased, in the order given.\<close>

definition ModerationSystem_init :: "string list \<Rightarrow> ModerationSystem" where
  "ModerationSystem_init keywords = \<lparr>banned_keywords = map lower keywords\<rparr>"

subsection \<open>check_input\<close>

text \<open>
  The first loop of \<open>check_input\<close>: return at the first keyword found in the lowercased
  text. \<open>None\<close> means the loop ran to its end without returning.
\<close>

fun first_pass :: "string list \<Rightarrow> string \<Rightarrow> (bool \<times> string) option" where
  "first_pass [] text_lower = None"
| "first_pass (keyword # rest) text_lower =
     (if str_in keyword text_lower
      then Some (False, ''Input contains prohibited content: '' @ [CHR 0x27] @ keyword @ [CHR 0x27])
      else first_pass rest text_lower)"

text \<open>The inner loop of the second pass: the same scan, with the other reason.\<close>

fun rescan :: "string list \<Rightarrow> string \<Rightarrow> (bool \<times> string) option" where
  "rescan [] text_lower = None"
| "rescan (keyword # rest) text_lower =
     (if str_in keyword text_lower
      then Some (False, ''Input contains potentially harmful request'')
      else rescan rest text_lower)"

text \<open>The outer loop of the second pass, over the sensitive patterns.\<close>

fun second_pass :: "string list \<Rightarrow> string list \<Rightarrow> string \<Rightarrow> (bool \<times> string) option" where
  "second_pass [] keywords text_lower = None"
| "second_pass (pattern # rest) keywords text_lower =
     (if str_in pattern text_lower
      then (case rescan keywords text_lower of
              Some r \<Rightarrow> Some r
            | None \<Rightarrow> second_pass rest keywords text_lower)
      else second_pass rest keywords text_lower)"

definition check_input :: "ModerationSystem \<Rightarrow> string \<Rightarrow> bool \<times> string" where
  "check_input self text =
     (let text_lower = lower text in
      case first_pass (banned_keywords self) text_lower of
        Some r \<Rightarrow> r
      | None \<Rightarrow>
          (case second_pass SENSITIVE_PATTERNS (banned_keywords self) text_lower of
             Some r \<Rightarrow> r
           | None \<Rightarrow> (True, ''Input passed moderation'')))"

text \<open>
  The single-pass scan the design notes compare \<open>check_input\<close> with: test each banned term
  against the lowercased text in vocabulary order, and nothing else.
\<close>

definition single_pass_check :: "ModerationSystem \<Rightarrow> string \<Rightarrow> bool \<times> string" where
  "single_pass_check self text =
     (case find (\<lambda>keyword. str_in keyword (lower text)) (banned_keywords self) of
        Some keyword \<Rightarrow>
          (False, ''Input contains prohibited content: '' @ [CHR 0x27] @ keyword @ [CHR 0x27])
      | None \<Rightarrow> (True, ''Input passed moderation''))"

subsection \<open>moderate_output\<close>

text \<open>
  \<open>re.compile(re.escape(keyword), re.IGNORECASE)\<close> matches the keyword literally, ignoring
  case; \<open>pattern_match\<close> says whether it matches at the start of the text.
\<close>

definition pattern_match :: "string \<Rightarrow> string \<Rightarrow> bool" where
  "pattern_match keyword text = prefix (lower keyword) (lower text)"

text \<open>
  \<open>pattern.sub(repl, text)\<close>: scan from the left; at a match emit \<open>repl\<close> and continue behind
  the match, otherwise copy one character. An empty pattern matches at every position and
  at the end of the text, and the scan still advances by one character.
\<close>

function pattern_sub :: "string \<Rightarrow> string \<Rightarrow> string \<Rightarrow> string" where
  "pattern_sub keyword repl [] = (if keyword = [] then repl else [])"
| "pattern_sub keyword repl (c # cs) =
     (if pattern_match keyword (c # cs)
      then (if keyword = [] then repl @ c # pattern_sub keyword repl cs
            else repl @ pattern_sub keyword repl (drop (length keyword) (c # cs)))
      else c # pattern_sub keyword repl cs)"
  by pat_completeness auto
termination
  by (relation "measure (\<lambda>(keyword, repl, text). length text)") auto

text \<open>
  The loop of \<open>moderate_output\<close> over the banned keywords, on the state
  \<open>(moderated_text, was_modified)\<close>.
\<close>

fun moderate_loop :: "string list \<Rightarrow> string \<times> bool \<Rightarrow> string \<times> bool" where
  "moderate_loop [] (moderated_text, was_modified) = (moderated_text, was_modified)"
| "moderate_loop (keyword # rest) (moderated_text, was_modified) =
     (if str_in keyword (lower moderated_text)
      then moderate_loop rest (pattern_sub keyword ''[REDACTED]'' moderated_text, True)
      else moderate_loop rest (moderated_text, was_modified))"

definition moderate_output :: "ModerationSystem \<Rightarrow> string \<Rightarrow> string \<times> bool" where
  "moderate_output self text = moderate_loop (banned_keywords self) (text, False)"

section \<open>AIChat\<close>

text \<open>
  A parsed JSON value, as \<open>response.json()\<close> returns it: \<open>None\<close>, a bool, a number, a
  \<open>str\<close>, a \<open>list\<close> or a \<open>dict\<close> (its items, with distinct keys). Numbers are kept as
  integers; a number of any other kind behaves the same in every function below.
\<close>

datatype json =
  JNull
| JBool bool
| JNum int
| JStr string
| JArr "json list"
| JObj "(string \<times> json) list"

text \<open>The exceptions that can leave \<open>send_message\<close>.\<close>

datatype py_exception = KeyError | IndexError | TypeError | AttributeError

text \<open>\<open>obj[key]\<close> with a string key: only a \<open>dict\<close> can be subscripted by a string.\<close>

fun subscript_key :: "json \<Rightarrow> string \<Rightarrow> py_exception + json" where
  "subscript_key (JObj items) key =
     (case map_of items key of Some v \<Rightarrow> Inr v | None \<Rightarrow> Inl KeyError)"
| "subscript_key _ key = Inl TypeError"

text \<open>
  \<open>obj[0]\<close>: the first element of a list, the first character of a string, \<open>KeyError\<close> on a
  dict (the keys of a JSON object are strings), \<open>TypeError\<close> on anything else.
\<close>

fun subscript_0 :: "json \<Rightarrow> py_exception + json" where
  "subscript_0 (JArr []) = Inl IndexError"
| "subscript_0 (JArr (x # xs)) = Inr x"
| "subscript_0 (JStr []) = Inl IndexError"
| "subscript_0 (JStr (c # cs)) = Inr (JStr [c])"
| "subscript_0 (JObj items) = Inl KeyError"
| "subscript_0 _ = Inl TypeError"

text \<open>\<open>ai_response['choices'][0]['message']['content']\<close>, evaluated left to right.\<close>

definition extract_message :: "json \<Rightarrow> py_exception + json" where
  "extract_message ai_response =
     (case subscript_key ai_response ''choices'' of
        Inl e \<Rightarrow> Inl e
      | Inr choices \<Rightarrow>
          (case subscript_0 choices of
             Inl e \<Rightarrow> Inl e
           | Inr choice \<Rightarrow>
               (case subscript_key choice ''message'' of
                  Inl e \<Rightarrow> Inl e
                | Inr message \<Rightarrow> subscript_key message ''content'')))"

text \<open>
  The request handed to \<open>requests.post\<close>. \<open>data\<close> holds the payload that the source
  serialises with \<open>json.dumps\<close>.
\<close>

record request =
  url :: string
  headers :: "(string \<times> string) list"
  data :: json
  timeout :: nat

text \<open>
  What the three calls \<open>requests.post\<close>, \<open>raise_for_status\<close> and \<open>response.json\<close> come to:
  one of them raises a \<open>RequestException\<close> \<open>e\<close> (connection error, timeout, HTTP error status,
  or a body that is not JSON, for which \<open>requests\<close> from version 2.27 on raises its own
  \<open>JSONDecodeError\<close>, a \<open>RequestException\<close>), carried as \<open>str(e)\<close>, or the body parses to a
  JSON value.
\<close>

datatype http_outcome = RequestException string | Body json

record AIChat =
  api_key :: string
  api_url :: string
  model :: string
  moderator :: ModerationSystem

definition AIChat_init :: "string \<Rightarrow> string \<Rightarrow> string \<Rightarrow> AIChat" where
  "AIChat_init key u mdl =
     \<lparr>api_key = key, api_url = u, model = mdl,
      moderator = ModerationSystem_init BANNED_KEYWORDS\<rparr>"

text \<open>The dictionary \<open>send_message\<close> returns, as its items in order.\<close>

type_synonym result_dict = "(string \<times> json) list"

definition status :: "result_dict \<Rightarrow> json option" where
  "status d = map_of d ''status''"

definition message :: "result_dict \<Rightarrow> json option" where
  "message d = map_of d ''message''"

definition build_request :: "AIChat \<Rightarrow> string \<Rightarrow> string \<Rightarrow> request" where
  "build_request self user_prompt system_prompt =
     \<lparr>url = api_url self,
      headers = [(''Authorization'', ''Bearer '' @ api_key self),
                 (''Content-Type'', ''application/json'')],
      data = JObj [(''model'', JStr (model self)),
                   (''messages'',
                    JArr [JObj [(''role'', JStr ''system''), (''content'', JStr system_prompt)],
                          JObj [(''role'', JStr ''user''), (''content'', JStr user_prompt)]])],
      timeout = 30\<rparr>"

text \<open>
  Step 3 of \<open>send_message\<close>, on the extracted \<open>ai_message\<close>. \<open>moderate_output\<close> calls
  \<open>.lower()\<close> on it in the first iteration of its loop: a value that is not a \<open>str\<close> raises
  \<open>AttributeError\<close> there, and passes through untouched when there is no keyword to loop
  over.
\<close>

definition output_moderation :: "ModerationSystem \<Rightarrow> json \<Rightarrow> py_exception + result_dict" where
  "output_moderation m ai_message =
     (case ai_message of
        JStr s \<Rightarrow>
          (let (moderated_message, was_modified) = moderate_output m s in
           if was_modified
           then Inr [(''status'', JStr ''moderated''),
                     (''message'', JStr moderated_message),
                     (''moderation'', JStr ''output_redacted''),
                     (''warning'', JStr ''Response contained restricted content that was redacted'')]
           else Inr [(''status'', JStr ''success''),
                     (''message'', JStr moderated_message),
                     (''moderation'', JStr ''passed'')])
      | _ \<Rightarrow>
          (if banned_keywords m = []
           then Inr [(''status'', JStr ''success''),
                     (''message'', ai_message),
                     (''moderation'', JStr ''passed'')]
           else Inl AttributeError))"

text \<open>
  \<open>send_message\<close>. The external service is the function \<open>post\<close> from the request to its
  outcome; the second component of the result is the list of requests that were sent.
  \<open>Inl\<close> is an exception that leaves \<open>send_message\<close>, \<open>Inr\<close> the returned dictionary. The
  progress lines printed on the way are not modelled.
\<close>

definition send_message ::
  "AIChat \<Rightarrow> string \<Rightarrow> string \<Rightarrow> (request \<Rightarrow> http_outcome) \<Rightarrow>
     (py_exception + result_dict) \<times> request list" where
  "send_message self user_prompt system_prompt post =
     (let (is_safe, reason) = check_input (moderator self) user_prompt in
      if \<not> is_safe
      then (Inr [(''status'', JStr ''blocked''),
                 (''message'', JStr ''Your input violated the moderation policy.''),
                 (''reason'', JStr reason),
                 (''moderation'', JStr ''input_blocked'')], [])
      else
        (let req = build_request self user_prompt system_prompt in
         case post req of
           RequestException e \<Rightarrow>
             (Inr [(''status'', JStr ''error''),
                   (''message'', JStr (''API Error: '' @ e)),
                   (''moderation'', JStr ''none'')], [req])
         | Body ai_response \<Rightarrow>
             (case extract_message ai_response of
                Inl exn \<Rightarrow> (Inl exn, [req])
              | Inr ai_message \<Rightarrow> (output_moderation (moderator self) ai_message, [req]))))"

section \<open>What redaction means\<close>




section \<open>Helper lemmas\<close>

lemma lower_char_Char:
  "lower_char (Char b0 b1 b2 b3 b4 b5 b6 b7) =
     (if 65 \<le> (of_char (Char b0 b1 b2 b3 b4 b5 b6 b7) :: nat) \<and>
         (of_char (Char b0 b1 b2 b3 b4 b5 b6 b7) :: nat) \<le> 90
      then Char b0 b1 b2 b3 b4 True b6 b7
      else Char b0 b1 b2 b3 b4 b5 b6 b7)"
  by (auto simp: lower_char_def Let_def char_of_def bit_Suc bit_0)

lemma lower_Nil: "lower [] = []"
  by (simp add: lower_def)





lemma str_in_sublist: "str_in k t = sublist k t"
  by (induction t) (auto simp: sublist_Cons_right)

lemma str_in_Nil: "str_in [] t"
  by (simp add: str_in_sublist)

section \<open>The input check\<close>

lemma first_pass_None: "first_pass ks txt = None \<longleftrightarrow> (\<forall>k\<in>set ks. \<not> str_in k txt)"
  by (induction ks) auto

lemma rescan_None: "rescan ks txt = None \<longleftrightarrow> (\<forall>k\<in>set ks. \<not> str_in k txt)"
  by (induction ks) auto

lemma second_pass_None:
  "rescan ks txt = None \<Longrightarrow> second_pass ps ks txt = None"
  by (induction ps) auto

lemma first_pass_Some: "first_pass ks txt = Some r \<Longrightarrow> fst r = False"
  by (induction ks) (auto split: if_splits)

lemma first_pass_find:
  "first_pass ks txt =
     map_option (\<lambda>k. (False, ''Input contains prohibited content: '' @ [CHR 0x27] @ k @ [CHR 0x27]))
       (find (\<lambda>k. str_in k txt) ks)"
  by (induction ks) auto

lemma first_pass_split:
  "\<forall>p\<in>set pre. \<not> str_in p txt \<Longrightarrow> str_in k txt \<Longrightarrow>
   first_pass (pre @ k # post) txt =
     Some (False, ''Input contains prohibited content: '' @ [CHR 0x27] @ k @ [CHR 0x27])"
  by (induction pre) auto

lemma check_input_clean:
  "\<forall>k\<in>set (banned_keywords m). \<not> str_in k (lower text) \<Longrightarrow>
   check_input m text = (True, ''Input passed moderation'')"
  by (simp add: check_input_def Let_def first_pass_None [THEN iffD2] rescan_None [THEN iffD2] second_pass_None)

lemmas eval_simps = ModerationSystem_init_def BANNED_KEYWORDS_def SENSITIVE_PATTERNS_def
  lower_def lower_char_Char

text \<open>
  Claim C2. Whenever some banned term occurs as a contiguous substring of the lowercased
  text, \<open>check_input\<close> returns \<open>False\<close> with the reason
  \<open>Input contains prohibited content: '<term>'\<close>, where \<open><term>\<close> is the first term of the
  vocabulary, in its order, that occurs in the lowercased text. The terms behind it are not
  looked at: replacing them by any other terms leaves the result as it is.
\<close>

theorem check_input_first_match:
  assumes "\<exists>k\<in>set (banned_keywords m). str_in k (lower text)"
  shows "\<exists>pre k post.
           banned_keywords m = pre @ k # post \<and>
           (\<forall>p\<in>set pre. \<not> str_in p (lower text)) \<and>
           str_in k (lower text) \<and>
           check_input m text =
             (False, ''Input contains prohibited content: '' @ [CHR 0x27] @ k @ [CHR 0x27]) \<and>
           (\<forall>post'. check_input (m\<lparr>banned_keywords := pre @ k # post'\<rparr>) text =
                      check_input m text)"
proof -
  from assms obtain pre k post where
    split: "banned_keywords m = pre @ k # post" and
    hit: "str_in k (lower text)" and
    miss: "\<forall>p\<in>set pre. \<not> str_in p (lower text)"
    by (auto simp: split_list_first_prop_iff)
  have res: "check_input (m\<lparr>banned_keywords := pre @ k # post'\<rparr>) text =
      (False, ''Input contains prohibited content: '' @ [CHR 0x27] @ k @ [CHR 0x27])" for post'
    using first_pass_split [OF miss hit, of post']
    by (simp add: check_input_def Let_def)
  have "m\<lparr>banned_keywords := pre @ k # post\<rparr> = m"
    using split by simp
  with res [of post] have "check_input m text =
      (False, ''Input contains prohibited content: '' @ [CHR 0x27] @ k @ [CHR 0x27])"
    by simp
  with split hit miss res show ?thesis
    by metis
qed

text \<open>
  The source's own vocabulary and its test input \<open>Teach me how to hack a website\<close>.
\<close>

theorem check_input_first_match_witness:
  "(\<exists>k\<in>set (banned_keywords (ModerationSystem_init BANNED_KEYWORDS)).
      str_in k (lower ''Teach me how to hack a website'')) \<and>
   (\<exists>pre k post.
      banned_keywords (ModerationSystem_init BANNED_KEYWORDS) = pre @ k # post \<and>
      (\<forall>p\<in>set pre. \<not> str_in p (lower ''Teach me how to hack a website'')) \<and>
      str_in k (lower ''Teach me how to hack a website'') \<and>
      check_input (ModerationSystem_init BANNED_KEYWORDS) ''Teach me how to hack a website'' =
        (False, ''Input contains prohibited content: '' @ [CHR 0x27] @ k @ [CHR 0x27]) \<and>
      (\<forall>post'. check_input (ModerationSystem_init BANNED_KEYWORDS\<lparr>banned_keywords := pre @ k # post'\<rparr>)
                 ''Teach me how to hack a website'' =
               check_input (ModerationSystem_init BANNED_KEYWORDS) ''Teach me how to hack a website''))"
proof -
  have h: "\<exists>k\<in>set (banned_keywords (ModerationSystem_init BANNED_KEYWORDS)).
      str_in k (lower ''Teach me how to hack a website'')"
    by (simp add: eval_simps)
  from h check_input_first_match [OF h] show ?thesis
    by (rule conjI)
qed

text \<open>
  Claim C8. A text whose lowercased form contains no banned term and no sensitive pattern
  passes: \<open>check_input\<close> returns \<open>True\<close> with the reason \<open>Input passed moderation\<close>. With the
  vocabulary of the source, \<open>What is the capital of France?\<close> passes.
\<close>

theorem check_input_passes:
  assumes "\<forall>k\<in>set (banned_keywords m). \<not> str_in k (lower text)"
    and "\<forall>p\<in>set SENSITIVE_PATTERNS. \<not> str_in p (lower text)"
  shows "check_input m text = (True, ''Input passed moderation'') \<and>
         check_input (ModerationSystem_init BANNED_KEYWORDS) ''What is the capital of France?'' =
           (True, ''Input passed moderation'')"
proof
  show "check_input m text = (True, ''Input passed moderation'')"
    using assms(1) by (rule check_input_clean)
  show "check_input (ModerationSystem_init BANNED_KEYWORDS) ''What is the capital of France?'' =
           (True, ''Input passed moderation'')"
    by (rule check_input_clean) (simp add: eval_simps)
qed

text \<open>
  Another test input of the source, \<open>Tell me about cybersecurity\<close>.
\<close>

theorem check_input_passes_witness:
  "\<not> (\<exists>k\<in>set (banned_keywords (ModerationSystem_init BANNED_KEYWORDS)).
        str_in k (lower ''Tell me about cybersecurity'')) \<and>
   \<not> (\<exists>p\<in>set SENSITIVE_PATTERNS. str_in p (lower ''Tell me about cybersecurity'')) \<and>
   check_input (ModerationSystem_init BANNED_KEYWORDS) ''Tell me about cybersecurity'' =
     (True, ''Input passed moderation'')"
proof -
  have h1: "\<forall>k\<in>set (banned_keywords (ModerationSystem_init BANNED_KEYWORDS)).
      \<not> str_in k (lower ''Tell me about cybersecurity'')"
    by (simp add: eval_simps)
  have h2: "\<forall>p\<in>set SENSITIVE_PATTERNS. \<not> str_in p (lower ''Tell me about cybersecurity'')"
    by (simp add: eval_simps)
  from check_input_passes [OF h1 h2] h1 h2 show ?thesis
    by blast
qed

text \<open>
  Claim C10. If the keywords given to the constructor contain a string that is empty after
  lowercasing, \<open>check_input\<close> returns \<open>False\<close> for every text, the empty text included: the
  empty string occurs in every text.
\<close>

theorem empty_term_blocks_everything:
  assumes "s \<in> set keywords" and "lower s = []"
  shows "fst (check_input (ModerationSystem_init keywords) text) = False \<and>
         fst (check_input (ModerationSystem_init keywords) []) = False"
proof -
  have "[] \<in> set (banned_keywords (ModerationSystem_init keywords))"
    using assms by (force simp: ModerationSystem_init_def)
  then have blocked: "fst (check_input (ModerationSystem_init keywords) t) = False" for t
  proof -
    assume "[] \<in> set (banned_keywords (ModerationSystem_init keywords))"
    with str_in_Nil have "first_pass (banned_keywords (ModerationSystem_init keywords)) (lower t) \<noteq> None"
      by (auto simp: first_pass_None)
    then obtain r where r: "first_pass (banned_keywords (ModerationSystem_init keywords)) (lower t) = Some r"
      by blast
    then have "check_input (ModerationSystem_init keywords) t = r"
      by (simp add: check_input_def)
    with first_pass_Some [OF r] show ?thesis by simp
  qed
  show ?thesis
    using blocked [of "text"] blocked [of "[]"] by simp
qed

text \<open>
  A vocabulary with an empty term behind \<open>kill\<close> blocks the harmless test input.
\<close>

theorem empty_term_blocks_everything_witness:
  "[] \<in> set [''kill'', []] \<and> lower [] = [] \<and>
   fst (check_input (ModerationSystem_init [''kill'', []]) ''What is the capital of France?'') = False \<and>
   fst (check_input (ModerationSystem_init [''kill'', []]) []) = False"
  using empty_term_blocks_everything [of "[]" "[''kill'', []]" "''What is the capital of France?''"]
  by (simp add: lower_Nil)

text \<open>
  Claim C4. The second pass never rejects: \<open>check_input\<close> never returns the reason
  \<open>Input contains potentially harmful request\<close>, and it equals the single-pass scan of the
  banned terms in vocabulary order, for every vocabulary and every text.
\<close>

theorem second_pass_unreachable:
  "check_input m text = single_pass_check m text \<and>
   snd (check_input m text) \<noteq> ''Input contains potentially harmful request''"
proof -
  have eq: "check_input m text = single_pass_check m text"
  proof (cases "first_pass (banned_keywords m) (lower text)")
    case None
    then have "rescan (banned_keywords m) (lower text) = None"
      by (simp add: first_pass_None rescan_None)
    then have "second_pass SENSITIVE_PATTERNS (banned_keywords m) (lower text) = None"
      by (rule second_pass_None)
    with None show ?thesis
      by (simp add: check_input_def single_pass_check_def Let_def first_pass_find)
  next
    case (Some r)
    then show ?thesis
      by (auto simp add: check_input_def single_pass_check_def Let_def first_pass_find)
  qed
  have "snd (single_pass_check m text) \<noteq> ''Input contains potentially harmful request''"
    by (simp add: single_pass_check_def split: option.splits)
  with eq show ?thesis by simp
qed

section \<open>The chat turn\<close>

lemma moderate_loop_True: "snd (moderate_loop ks (t, True)) = True"
  by (induction ks arbitrary: t) auto

lemma moderate_loop_unmodified:
  "snd (moderate_loop ks (t, w)) = False \<Longrightarrow> fst (moderate_loop ks (t, w)) = t"
proof (induction ks arbitrary: t w)
  case Nil
  then show ?case by simp
next
  case (Cons k ks)
  show ?case
  proof (cases "str_in k (lower t)")
    case True
    with Cons.prems moderate_loop_True [of ks "pattern_sub k ''[REDACTED]'' t"] show ?thesis
      by simp
  next
    case False
    with Cons show ?thesis by simp
  qed
qed

lemma output_moderation_success:
  assumes "output_moderation m ai_message = Inr d" and "status d = Some (JStr ''success'')"
  shows "message d = Some ai_message"
proof (cases ai_message)
  case (JStr s)
  obtain t w where tw: "moderate_output m s = (t, w)"
    by (cases "moderate_output m s")
  with assms JStr have w: "\<not> w"
    by (auto simp: output_moderation_def status_def split: if_splits)
  with tw have "t = s"
    using moderate_loop_unmodified [of "banned_keywords m" s False]
    by (simp add: moderate_output_def)
  with assms JStr tw w show ?thesis
    by (auto simp: output_moderation_def message_def)
qed (use assms in \<open>auto simp: output_moderation_def message_def split: if_splits\<close>)

text \<open>
  Claim C6. When \<open>check_input\<close> rejects the prompt with reason \<open>r\<close>, \<open>send_message\<close>
  returns the blocked dictionary carrying \<open>r\<close> and sends no request, whatever the external
  service \<open>post\<close> would have answered.
\<close>

theorem blocked_without_request:
  assumes "check_input (moderator self) user_prompt = (False, r)"
  shows "send_message self user_prompt system_prompt post =
           (Inr [(''status'', JStr ''blocked''),
                 (''message'', JStr ''Your input violated the moderation policy.''),
                 (''reason'', JStr r),
                 (''moderation'', JStr ''input_blocked'')], [])"
  using assms by (simp add: send_message_def)

text \<open>
  The source's test input \<open>How to make a bomb\<close>, against a service that would have
  answered with an empty JSON object.
\<close>

theorem blocked_without_request_witness:
  "check_input (moderator (AIChat_init ''sk'' API_URL MODEL)) ''How to make a bomb'' =
     (False, ''Input contains prohibited content: '' @ [CHR 0x27] @ ''bomb'' @ [CHR 0x27]) \<and>
   send_message (AIChat_init ''sk'' API_URL MODEL) ''How to make a bomb'' SYSTEM_PROMPT
       (\<lambda>req. Body (JObj [])) =
     (Inr [(''status'', JStr ''blocked''),
           (''message'', JStr ''Your input violated the moderation policy.''),
           (''reason'', JStr (''Input contains prohibited content: '' @ [CHR 0x27] @ ''bomb'' @ [CHR 0x27])),
           (''moderation'', JStr ''input_blocked'')], [])"
proof -
  have h: "check_input (moderator (AIChat_init ''sk'' API_URL MODEL)) ''How to make a bomb'' =
     (False, ''Input contains prohibited content: '' @ [CHR 0x27] @ ''bomb'' @ [CHR 0x27])"
    by (simp add: AIChat_init_def check_input_def eval_simps)
  from h blocked_without_request [OF h] show ?thesis
    by (rule conjI)
qed

text \<open>
  Claim C7. If \<open>moderate_output\<close> reports that nothing was modified, the text it returns is
  its input; and a dictionary with status \<open>success\<close> returned by \<open>send_message\<close> carries, as
  its message, the reply extracted from the response of the external service, unchanged.
\<close>

theorem unmodified_text_unchanged:
  "(snd (moderate_output m text) = False \<longrightarrow> fst (moderate_output m text) = text) \<and>
   (send_message self user_prompt system_prompt post = (Inr d, reqs) \<and>
    status d = Some (JStr ''success'') \<longrightarrow>
      (\<exists>ai_response ai_message.
         post (build_request self user_prompt system_prompt) = Body ai_response \<and>
         extract_message ai_response = Inr ai_message \<and>
         message d = Some ai_message))"
proof (intro conjI impI)
  assume "snd (moderate_output m text) = False"
  then show "fst (moderate_output m text) = text"
    unfolding moderate_output_def by (rule moderate_loop_unmodified)
next
  assume a: "send_message self user_prompt system_prompt post = (Inr d, reqs) \<and>
    status d = Some (JStr ''success'')"
  obtain safe reason where ci: "check_input (moderator self) user_prompt = (safe, reason)"
    by (cases "check_input (moderator self) user_prompt")
  show "\<exists>ai_response ai_message.
         post (build_request self user_prompt system_prompt) = Body ai_response \<and>
         extract_message ai_response = Inr ai_message \<and>
         message d = Some ai_message"
  proof (cases "post (build_request self user_prompt system_prompt)")
    case (RequestException e)
    with a ci show ?thesis
      by (auto simp: send_message_def status_def Let_def split: if_splits)
  next
    case (Body ai_response)
    show ?thesis
    proof (cases "extract_message ai_response")
      case (Inl exn)
      with a ci Body show ?thesis
        by (auto simp: send_message_def status_def Let_def split: if_splits)
    next
      case (Inr ai_message)
      with a ci Body have "output_moderation (moderator self) ai_message = Inr d"
        by (auto simp: send_message_def status_def Let_def split: if_splits)
      with a have "message d = Some ai_message"
        by (auto intro: output_moderation_success)
      with Body Inr show ?thesis by simp
    qed
  qed
qed

text \<open>
  A reply \<open>Paris\<close> to the source's test input \<open>What is the capital of France?\<close>.
\<close>

theorem unmodified_text_unchanged_witness:
  "snd (moderate_output (ModerationSystem_init BANNED_KEYWORDS) ''Paris'') = False \<and>
   fst (moderate_output (ModerationSystem_init BANNED_KEYWORDS) ''Paris'') = ''Paris'' \<and>
   send_message (AIChat_init ''sk'' API_URL MODEL) ''What is the capital of France?'' SYSTEM_PROMPT
       (\<lambda>req. Body (JObj [(''choices'',
          JArr [JObj [(''message'',
            JObj [(''role'', JStr ''assistant''), (''content'', JStr ''Paris'')])]])])) =
     (Inr [(''status'', JStr ''success''), (''message'', JStr ''Paris''),
           (''moderation'', JStr ''passed'')],
      [build_request (AIChat_init ''sk'' API_URL MODEL) ''What is the capital of France?''
         SYSTEM_PROMPT]) \<and>
   message [(''status'', JStr ''success''), (''message'', JStr ''Paris''),
            (''moderation'', JStr ''passed'')] = Some (JStr ''Paris'')"
proof -
  let ?m = "ModerationSystem_init BANNED_KEYWORDS"
  let ?self = "AIChat_init ''sk'' API_URL MODEL"
  let ?post = "\<lambda>req::request. Body (JObj [(''choices'',
          JArr [JObj [(''message'',
            JObj [(''role'', JStr ''assistant''), (''content'', JStr ''Paris'')])]])])"
  let ?d = "[(''status'', JStr ''success''), (''message'', JStr ''Paris''),
            (''moderation'', JStr ''passed'')]"
  let ?reqs = "[build_request ?self ''What is the capital of France?'' SYSTEM_PROMPT]"
  have h1: "snd (moderate_output ?m ''Paris'') = False"
    by (simp add: moderate_output_def eval_simps)
  have h2: "send_message ?self ''What is the capital of France?'' SYSTEM_PROMPT ?post = (Inr ?d, ?reqs)"
    by (simp add: send_message_def AIChat_init_def check_input_def extract_message_def
        output_moderation_def moderate_output_def eval_simps)
  have h3: "status ?d = Some (JStr ''success'')"
    by (simp add: status_def)
  from unmodified_text_unchanged [of ?m "''Paris''" ?self "''What is the capital of France?''"
      SYSTEM_PROMPT ?post ?d ?reqs] h1 h2 h3
  show ?thesis
    by (simp add: extract_message_def)
qed

text \<open>
  Claim C1. The claim says that every outcome of the external call ends in one of the four
  dictionaries and that a response without the expected reply field gives the error
  dictionary. The handler of \<open>send_message\<close> catches \<open>RequestException\<close> only, so the lookup
  \<open>ai_response['choices'][0]['message']['content']\<close> inside the \<open>try\<close> block, and \<open>.lower()\<close> on
  a reply that is not a string, raise past it: for a prompt that passes the input check, the
  response bodies \<open>{}\<close>, \<open>{choices: []}\<close> and a reply whose content is \<open>null\<close> make
  \<open>send_message\<close> raise \<open>KeyError\<close>, \<open>IndexError\<close> and \<open>AttributeError\<close>.
\<close>

theorem missing_reply_field_raises:
  "send_message (AIChat_init ''sk'' API_URL MODEL) ''What is the capital of France?''
       SYSTEM_PROMPT (\<lambda>req. Body (JObj [])) =
     (Inl KeyError,
      [build_request (AIChat_init ''sk'' API_URL MODEL) ''What is the capital of France?''
         SYSTEM_PROMPT]) \<and>
   send_message (AIChat_init ''sk'' API_URL MODEL) ''What is the capital of France?''
       SYSTEM_PROMPT (\<lambda>req. Body (JObj [(''choices'', JArr [])])) =
     (Inl IndexError,
      [build_request (AIChat_init ''sk'' API_URL MODEL) ''What is the capital of France?''
         SYSTEM_PROMPT]) \<and>
   send_message (AIChat_init ''sk'' API_URL MODEL) ''What is the capital of France?''
       SYSTEM_PROMPT
       (\<lambda>req. Body (JObj [(''choices'',
          JArr [JObj [(''message'',
            JObj [(''role'', JStr ''assistant''), (''content'', JNull)])]])])) =
     (Inl AttributeError,
      [build_request (AIChat_init ''sk'' API_URL MODEL) ''What is the capital of France?''
         SYSTEM_PROMPT])"
  by (simp add: send_message_def AIChat_init_def check_input_def extract_message_def
      output_moderation_def eval_simps)

section \<open>Growth of the redacted text\<close>

lemma length_pattern_sub:
  "keyword \<noteq> [] \<Longrightarrow> length (pattern_sub keyword ''[REDACTED]'' t) \<le> 10 * length t"
proof (induction keyword "''[REDACTED]''" t rule: pattern_sub.induct)
  case (1 keyword)
  then show ?case by simp
next
  case (2 keyword c cs)
  show ?case
  proof (cases "pattern_match keyword (c # cs)")
    case True
    have "length (drop (length keyword) (c # cs)) \<le> length cs"
      using \<open>keyword \<noteq> []\<close> by (cases keyword) simp_all
    with 2 True show ?thesis by simp
  next
    case False
    with 2 show ?thesis by simp
  qed
qed

lemma length_moderate_loop:
  "\<forall>k\<in>set ks. k \<noteq> [] \<Longrightarrow>
   length (fst (moderate_loop ks (t, w))) \<le> 10 ^ length ks * length t"
proof (induction ks arbitrary: t w)
  case Nil
  then show ?case by simp
next
  case (Cons k ks)
  from Cons.prems have k: "k \<noteq> []" and ks: "\<forall>k\<in>set ks. k \<noteq> []"
    by simp_all
  show ?case
  proof (cases "str_in k (lower t)")
    case True
    have "length (fst (moderate_loop ks (pattern_sub k ''[REDACTED]'' t, True)))
        \<le> 10 ^ length ks * length (pattern_sub k ''[REDACTED]'' t)"
      using ks by (rule Cons.IH)
    also have "\<dots> \<le> 10 ^ length ks * (10 * length t)"
      using length_pattern_sub [OF k, of t] by (rule mult_le_mono2)
    finally show ?thesis using True by simp
  next
    case False
    have "length (fst (moderate_loop ks (t, w))) \<le> 10 ^ length ks * length t"
      using ks by (rule Cons.IH)
    also have "\<dots> \<le> 10 ^ length (k # ks) * length t"
      by simp
    finally show ?thesis using False by simp
  qed
qed

text \<open>
  Claim C9. The marker has length 10. When the banned term is not empty, one pass of the
  loop of \<open>moderate_output\<close> returns a text at most 10 times as long as the text it was
  given; and for a vocabulary of \<open>K\<close> non-empty terms the text \<open>moderate_output\<close> returns is at
  most \<open>10 ^ K\<close> times as long as its input.
\<close>

theorem moderate_output_growth:
  "length ''[REDACTED]'' = 10 \<and>
   (keyword \<noteq> [] \<longrightarrow> length (fst (moderate_loop [keyword] (t, w))) \<le> 10 * length t) \<and>
   ((\<forall>k\<in>set (banned_keywords m). k \<noteq> []) \<longrightarrow>
      length (fst (moderate_output m text))
        \<le> 10 ^ length (banned_keywords m) * length text)"
proof (intro conjI impI)
  show "length ''[REDACTED]'' = 10" by simp
next
  assume "keyword \<noteq> []"
  then show "length (fst (moderate_loop [keyword] (t, w))) \<le> 10 * length t"
    using length_moderate_loop [of "[keyword]" t w] by simp
next
  assume "\<forall>k\<in>set (banned_keywords m). k \<noteq> []"
  then show "length (fst (moderate_output m text))
        \<le> 10 ^ length (banned_keywords m) * length text"
    unfolding moderate_output_def by (rule length_moderate_loop)
qed

text \<open>
  One pass reaches the factor 10 on \<open>aAa\<close>; three terms, two of them brackets, turn \<open>a\<close>
  into 37 characters.
\<close>

theorem moderate_output_growth_witness:
  "''a'' \<noteq> [] \<and>
   length (fst (moderate_loop [''a''] (''aAa'', False))) = 10 * length ''aAa'' \<and>
   \<not> (\<exists>k\<in>set (banned_keywords (ModerationSystem_init [''A'', ''['', '']''])). k = []) \<and>
   fst (moderate_output (ModerationSystem_init [''A'', ''['', '']'']) ''a'') =
     ''[REDACTED[REDACTED]REDACTED[REDACTED]'' \<and>
   length (fst (moderate_output (ModerationSystem_init [''A'', ''['', '']'']) ''a''))
     \<le> 10 ^ length (banned_keywords (ModerationSystem_init [''A'', ''['', '']''])) * length ''a''"
proof -
  have h1: "''a'' \<noteq> []" by simp
  have h2: "\<forall>k\<in>set (banned_keywords (ModerationSystem_init [''A'', ''['', '']''])). k \<noteq> []"
    by (simp add: eval_simps)
  have e1: "fst (moderate_loop [''a''] (''aAa'', False)) = ''[REDACTED][REDACTED][REDACTED]''"
    by (simp add: pattern_match_def eval_simps)
  have e2: "fst (moderate_output (ModerationSystem_init [''A'', ''['', '']'']) ''a'') =
     ''[REDACTED[REDACTED]REDACTED[REDACTED]''"
    by (simp add: moderate_output_def pattern_match_def eval_simps)
  from moderate_output_growth [of "''a''" "''aAa''" False "ModerationSystem_init [''A'', ''['', '']'']" "''a''"]
    h1 h2 e1 e2
  show ?thesis by simp
qed

section \<open>Occurrences of a term\<close>











section \<open>Redaction of the output\<close>














section \<open>Applying the redaction twice\<close>










end
